theory Spec2Isabelle
  imports Main "HOL-Library.Word"
begin

section \<open>DownloadCommand: one cooperative step of a segment transfer\<close>

text \<open>
  The development follows \<^verbatim>\<open>src/DownloadCommand.cc\<close>. The command object, the engine's
  queue, the disk, the segment registry and the logger are gathered in one state record
  that every function takes and returns. What the step asks of its surroundings in one
  invocation (the bytes the socket has ready, the clock, the measured speeds, the answers
  of the request group) is an \<open>env\<close> record. The methods of the decoders and of the
  digest helper, whose classes are not part of this file, are parameters collected in a
  \<open>collaborators\<close> record.
\<close>

subsection \<open>Data\<close>

type_synonym byte = "8 word"

text \<open>
  The exception messages. \<^verbatim>\<open>EX_GOT_EOF\<close> and \<^verbatim>\<open>EX_TOO_SLOW_DOWNLOAD_SPEED\<close> are format
  strings of \<^verbatim>\<open>message.h\<close>; the constructors keep the arguments given to
  \<^verbatim>\<open>StringFormat\<close> (for the checksum message: the segment index).
\<close>

datatype message =
    EX_GOT_EOF
  | Invalid_checksum_index nat
  | EX_TOO_SLOW_DOWNLOAD_SPEED nat nat string

datatype exn = DlRetryEx message | DlAbortEx message

datatype log_entry =
    MSG_SEGMENT_DOWNLOAD_COMPLETED nat
  | Inflate_not_finished nat
  | Hash_is_available nat
  | MSG_GOOD_CHUNK_CHECKSUM string
  | EX_INVALID_CHUNK_CHECKSUM nat nat string string

text \<open>What the engine's queue holds: this command (by its cuid) or a full-file check.\<close>

datatype command = DownloadCommand nat | CheckIntegrityCommand nat

text \<open>
  How a call ends: it returns a boolean, it throws, or it hands over to
  \<^verbatim>\<open>AbstractCommand::prepareForRetry\<close> (a tail call into code outside this file, kept
  with its argument). \<open>FrontOfEmpty\<close> stands for \<^verbatim>\<open>_segments.front()\<close> on an empty
  container, which C++ leaves undefined.
\<close>

datatype outcome = Returned bool | Thrown exn | PrepareForRetry nat | FrontOfEmpty

text \<open>
  Modelled from the spec: \<^verbatim>\<open>Segment\<close> (Segment.h and its implementations are not among
  the sources). The attributes are the spec's: index, position, length (0 for unknown),
  written length, and the state of the rolling hash, kept as the chunks fed to it, each with
  the offset it was fed at.
\<close>

record Segment =
  index :: nat
  position :: nat
  length_s :: nat
  writtenLength :: nat
  hashed :: "(nat \<times> byte list) list"

text \<open>Modelled from the spec: the absolute write offset is position + written length.\<close>

definition getPositionToWrite :: "Segment \<Rightarrow> nat" where
  "getPositionToWrite s = position s + writtenLength s"

text \<open>Modelled from the spec: the written length advances by the number of bytes given.\<close>

definition updateWrittenLength :: "nat \<Rightarrow> Segment \<Rightarrow> Segment" where
  "updateWrittenLength n s = s\<lparr>writtenLength := writtenLength s + n\<rparr>"

text \<open>Modelled from the spec: the bytes are fed to the rolling hash at the given offset.\<close>

definition updateHash :: "nat \<Rightarrow> byte list \<Rightarrow> Segment \<Rightarrow> Segment" where
  "updateHash begin dat s = s\<lparr>hashed := hashed s @ [(begin, dat)]\<rparr>"

text \<open>Modelled from the spec: complete iff length > 0 and written length = length.\<close>

definition complete :: "Segment \<Rightarrow> bool" where
  "complete s = (0 < length_s s \<and> writtenLength s = length_s s)"

text \<open>Modelled from the spec: clearing resets the written length and the hash state.\<close>

definition clear :: "Segment \<Rightarrow> Segment" where
  "clear s = s\<lparr>writtenLength := 0, hashed := []\<rparr>"

text \<open>
  Modelled from the spec: the speed tracker \<^verbatim>\<open>PeerStat\<close> (PeerStat.h is not among the
  sources), with its start time in seconds and the cumulative bytes observed.
\<close>

record PeerStat =
  downloadStartTime :: int
  downloadLength :: nat

definition updateDownloadLength :: "nat \<Rightarrow> PeerStat \<Rightarrow> PeerStat" where
  "updateDownloadLength n p = p\<lparr>downloadLength := downloadLength p + n\<rparr>"

text \<open>
  Modelled from the spec: \<^verbatim>\<open>Time::elapsed\<close> (TimeA2.h is not among the sources). The
  grace period has elapsed once the time since the start is at least the period.
\<close>

definition elapsed :: "int \<Rightarrow> int \<Rightarrow> nat \<Rightarrow> bool" where
  "elapsed start current sec = (int sec \<le> current - start)"

text \<open>
  Modelled from the spec: the segment registry \<^verbatim>\<open>SegmentMan\<close> (SegmentMan.h is not among
  the sources): which connection owns which segment index, and the indexes marked
  complete. \<open>completeSegment\<close> marks the segment complete for the connection;
  \<open>cancelSegment\<close> releases whatever the connection owns.
\<close>

record SegmentMan =
  owned :: "(nat \<times> nat) list"
  completed :: "(nat \<times> nat) list"

definition completeSegment :: "nat \<Rightarrow> Segment \<Rightarrow> SegmentMan \<Rightarrow> SegmentMan" where
  "completeSegment c s m = m\<lparr>completed := completed m @ [(c, index s)]\<rparr>"

definition cancelSegment :: "nat \<Rightarrow> SegmentMan \<Rightarrow> SegmentMan" where
  "cancelSegment c m = m\<lparr>owned := filter (\<lambda>p. fst p \<noteq> c) (owned m)\<rparr>"

text \<open>
  Modelled from the spec: the disk destination \<^verbatim>\<open>DiskAdaptor\<close> (DiskAdaptor.h is not
  among the sources) is the file's bytes by absolute offset; \<open>writeData\<close> stores the
  bytes from the offset on, \<open>readDisk\<close> reads a range back.
\<close>

definition writeData :: "(nat \<Rightarrow> byte) \<Rightarrow> byte list \<Rightarrow> nat \<Rightarrow> (nat \<Rightarrow> byte)" where
  "writeData d dat off = (\<lambda>i. if off \<le> i \<and> i < off + length dat then dat ! (i - off) else d i)"

definition readDisk :: "(nat \<Rightarrow> byte) \<Rightarrow> nat \<Rightarrow> nat \<Rightarrow> byte list" where
  "readDisk d off n = map d [off ..< off + n]"

text \<open>
  The command with what it mutates. \<open>'t\<close> and \<open>'c\<close> are the internal states of the
  transfer decoder and of the content decoder; \<open>None\<close> is the null handle.
\<close>

record ('t, 'c) state =
  cuid :: nat
  segments :: "Segment list"
  transferDecoder :: "'t option"
  contentEncodingDecoder :: "'c option"
  pieceHashValidationEnabled :: bool
  maxDownloadSpeedLimit :: nat
  lowestDownloadSpeedLimit :: nat
  startupIdleTime :: nat
  peerStat :: PeerStat
  checkSocketIsReadable :: bool
  commands :: "command list"
  disk :: "nat \<Rightarrow> byte"
  segmentMan :: SegmentMan
  logger :: "log_entry list"

text \<open>
  The methods of classes declared outside this file, taken as parameters.
  \<^item> \<open>inflate t outlen inbuf\<close> is \<^verbatim>\<open>transferDecoder->inflate(infbuf, infbufSize, buf, bufSize)\<close>:
    \<open>outlen\<close> is the capacity passed in, the result holds the bytes produced into
    \<^verbatim>\<open>infbuf\<close> and the decoder's next state. The call is the only place where
    \<^verbatim>\<open>infbufSize\<close> can change before it is read back as the payload size, so the length
    argument is taken as in-out: the length of the produced bytes is what the call leaves
    in \<^verbatim>\<open>infbufSize\<close>. The decoder is taken to produce no more than the capacity.
  \<^item> \<open>decode c inbuf\<close> is \<^verbatim>\<open>_contentEncodingDecoder->decode(bufFinal, bufSizeFinal)\<close>,
    returning the output string and the decoder's next state.
  \<^item> \<open>ENABLE_MESSAGE_DIGEST\<close> is the preprocessor switch.
  Every call is taken to return: an exception raised inside the socket, a decoder, the disk
  or the registry is not part of this development.
\<close>

record ('t, 'c) collaborators =
  ENABLE_MESSAGE_DIGEST :: bool
  inflate :: "'t \<Rightarrow> nat \<Rightarrow> byte list \<Rightarrow> byte list \<times> 't"
  td_finished :: "'t \<Rightarrow> bool"
  td_end :: "'t \<Rightarrow> 't"
  decode :: "'c \<Rightarrow> byte list \<Rightarrow> byte list \<times> 'c"
  ce_finished :: "'c \<Rightarrow> bool"
  isHashCalculated :: "Segment \<Rightarrow> bool"
  getHashString :: "Segment \<Rightarrow> string"
  digest :: "(nat \<Rightarrow> byte) \<Rightarrow> nat \<Rightarrow> nat \<Rightarrow> string"

text \<open>
  What one invocation reads from its surroundings: the aggregate speed of the request
  group, the bytes the socket has ready, the memory that lies behind the valid bytes of a
  buffer, what the memory of \<^verbatim>\<open>infbuf\<close> holds after its block when the bytes to
  persist are read and when the hash is fed, the request group's total length and
  completion, the expected piece hashes, the
  clock, this connection's speed, the host, the readiness of the full-file check, the next
  cuid, and the registry's answer to \<^verbatim>\<open>getSegment(cuid, index)\<close>.
\<close>

record env =
  calculateDownloadSpeed_group :: nat
  incoming :: "byte list"
  junk :: "nat \<Rightarrow> byte"
  infbuf_when_persisted :: "nat \<Rightarrow> byte"
  infbuf_when_hashed :: "nat \<Rightarrow> byte"
  getTotalLength :: nat
  getPieceHash :: "nat \<Rightarrow> string"
  currentTime :: int
  calculateDownloadSpeed_peer :: nat
  getHost :: string
  downloadFinished :: bool
  isValidationReady :: bool
  newID :: nat
  getSegment :: "nat \<Rightarrow> nat \<Rightarrow> Segment option"

subsection \<open>Reading\<close>

text \<open>Subtraction of \<^verbatim>\<open>size_t\<close> values (64 bits) wraps around.\<close>

definition size_t_sub :: "nat \<Rightarrow> nat \<Rightarrow> nat" where
  "size_t_sub a b = nat ((int a - int b) mod 2 ^ 64)"

text \<open>Lines 113-120: the number of bytes asked of the socket.\<close>

definition bufSize :: "Segment \<Rightarrow> nat" where
  "bufSize segment =
     (let BUFSIZE = 16 * 1024 in
      if 0 < length_s segment \<and> size_t_sub (length_s segment) (writtenLength segment) < BUFSIZE
      then size_t_sub (length_s segment) (writtenLength segment)
      else BUFSIZE)"

text \<open>
  Modelled from the spec: \<^verbatim>\<open>socket->readData(buf, bufSize)\<close> (Socket.h is not among the
  sources) reads at most the number of bytes asked for, and leaves the number read in
  \<^verbatim>\<open>bufSize\<close>: here the length of the list.
\<close>

definition readData :: "env \<Rightarrow> nat \<Rightarrow> byte list" where
  "readData E n = take n (incoming E)"

text \<open>
  Reading \<open>n\<close> bytes through a pointer to a buffer whose valid bytes are \<open>valid\<close>:
  past them the read returns whatever the memory holds.
\<close>

definition readMem :: "byte list \<Rightarrow> (nat \<Rightarrow> byte) \<Rightarrow> nat \<Rightarrow> byte list" where
  "readMem valid mem n = take n valid @ map mem [length valid ..< n]"

subsection \<open>The functions of DownloadCommand.cc\<close>

text \<open>Lines 219-231. The function is const: it returns the exception, if any.\<close>

definition checkLowestDownloadSpeed :: "env \<Rightarrow> ('t, 'c) state \<Rightarrow> exn option" where
  "checkLowestDownloadSpeed E st =
     (if elapsed (downloadStartTime (peerStat st)) (currentTime E) (startupIdleTime st) then
        (let nowSpeed = calculateDownloadSpeed_peer E in
         if 0 < lowestDownloadSpeedLimit st \<and> nowSpeed \<le> lowestDownloadSpeedLimit st
         then Some (DlAbortEx (EX_TOO_SLOW_DOWNLOAD_SPEED nowSpeed (lowestDownloadSpeedLimit st) (getHost E)))
         else None)
      else None)"

text \<open>Lines 233-261.\<close>

definition prepareForNextSegment ::
  "('t, 'c) collaborators \<Rightarrow> env \<Rightarrow> ('t, 'c) state \<Rightarrow> ('t, 'c) state \<times> outcome" where
  "prepareForNextSegment C E st =
     (if downloadFinished E then
        ((if ENABLE_MESSAGE_DIGEST C \<and> isValidationReady E
          then st\<lparr>commands := commands st @ [CheckIntegrityCommand (newID E)]\<rparr>
          else st), Returned True)
      else
        (case segments st of
           tempSegment # rest \<Rightarrow>
             (case getSegment E (cuid st) (index tempSegment + 1) of
                Some nextSegment \<Rightarrow>
                  if writtenLength nextSegment = 0
                  then (st\<lparr>commands := commands st @ [DownloadCommand (cuid st)]\<rparr>, Returned False)
                  else (st, PrepareForRetry 0)
              | None \<Rightarrow> (st, PrepareForRetry 0))
         | [] \<Rightarrow> (st, PrepareForRetry 0)))"

text \<open>
  Lines 265-283. The handle passed is \<^verbatim>\<open>_segments.front()\<close>: the segment cleared through
  it is the front segment of the command, so the model writes it back there.
\<close>

definition validatePieceHash ::
  "Segment \<Rightarrow> string \<Rightarrow> string \<Rightarrow> ('t, 'c) state \<Rightarrow> ('t, 'c) state \<times> exn option" where
  "validatePieceHash segment expectedPieceHash actualPieceHash st =
     (if actualPieceHash = expectedPieceHash then
        (st\<lparr>logger := logger st @ [MSG_GOOD_CHUNK_CHECKSUM actualPieceHash],
            segmentMan := completeSegment (cuid st) segment (segmentMan st)\<rparr>, None)
      else
        (st\<lparr>logger := logger st @
               [EX_INVALID_CHUNK_CHECKSUM (index segment) (position segment)
                  expectedPieceHash actualPieceHash],
            segments := clear segment # tl (segments st),
            segmentMan := cancelSegment (cuid st) (segmentMan st)\<rparr>,
         Some (DlRetryEx (Invalid_checksum_index (index (clear segment))))))"

text \<open>
  Lines 123-162 of \<open>executeInternal\<close>: decode, persist, feed the hash, bookkeeping.
  \<open>buf\<close> holds the bytes read. The pointer \<^verbatim>\<open>bufFinal\<close> is read twice: by the
  disk write or the content decoder (lines 142, 145), and by the hash update (line 155),
  there with the length \<^verbatim>\<open>bufSizeFinal\<close> that line 149 sets to the size of the content
  decoder's output. The model keeps \<^verbatim>\<open>bufFinal\<close> as the two reads, each a function
  from the number of bytes asked for to the bytes obtained.

  Without a transfer decoder \<^verbatim>\<open>bufFinal\<close> is \<^verbatim>\<open>buf\<close>: both reads return the bytes
  read from the socket, followed by what lies behind them. With a transfer decoder
  \<^verbatim>\<open>bufFinal\<close> is \<^verbatim>\<open>infbuf\<close>, an array declared inside the block of lines 132-139
  and read after that block has ended: the size \<^verbatim>\<open>infbufSize\<close> is the decoder's, but
  the bytes are whatever the memory holds at the time of each read, which the environment
  gives.
\<close>

definition executeInternal_store ::
  "('t, 'c) collaborators \<Rightarrow> env \<Rightarrow> byte list \<Rightarrow> ('t, 'c) state \<Rightarrow> ('t, 'c) state" where
  "executeInternal_store C E buf st =
     (case segments st of
        [] \<Rightarrow> st
      | segment # rest \<Rightarrow>
          (case (case transferDecoder st of
                   None \<Rightarrow> (length buf, readMem buf (junk E), readMem buf (junk E), None)
                 | Some t \<Rightarrow>
                     (case inflate C t (16 * 1024) buf of
                        (infbuf, t') \<Rightarrow>
                          (length infbuf,
                           (\<lambda>n. map (infbuf_when_persisted E) [0 ..< n]),
                           (\<lambda>n. map (infbuf_when_hashed E) [0 ..< n]),
                           Some t')))
           of (payloadSize, bufFinal_persist, bufFinal_hash, td') \<Rightarrow>
             (case (case contentEncodingDecoder st of
                      None \<Rightarrow> (bufFinal_persist payloadSize, None)
                    | Some c \<Rightarrow>
                        (case decode C c (bufFinal_persist payloadSize) of
                           (out, c') \<Rightarrow> (out, Some c')))
              of (persisted, ce') \<Rightarrow>
                (let bufSizeFinal = length persisted;
                     disk' = writeData (disk st) persisted (getPositionToWrite segment);
                     segment1 =
                       (if ENABLE_MESSAGE_DIGEST C \<and> pieceHashValidationEnabled st
                        then updateHash (writtenLength segment) (bufFinal_hash bufSizeFinal) segment
                        else segment);
                     segment2 = updateWrittenLength bufSizeFinal segment1
                 in st\<lparr>segments := segment2 # rest,
                       transferDecoder := td',
                       contentEncodingDecoder := ce',
                       disk := disk',
                       peerStat := updateDownloadLength (length buf) (peerStat st)\<rparr>))))"

text \<open>
  Lines 180-207: validate the piece hash, or mark the segment complete. The digest
  context's reset before the on-demand digest has no effect outside the digest call.
\<close>

definition executeInternal_validate ::
  "('t, 'c) collaborators \<Rightarrow> env \<Rightarrow> Segment \<Rightarrow> ('t, 'c) state \<Rightarrow> ('t, 'c) state \<times> exn option" where
  "executeInternal_validate C E segment st =
     (if ENABLE_MESSAGE_DIGEST C then
        (let expectedPieceHash = getPieceHash E (index segment) in
         if pieceHashValidationEnabled st \<and> expectedPieceHash \<noteq> [] then
           (if isHashCalculated C segment then
              validatePieceHash segment expectedPieceHash (getHashString C segment)
                (st\<lparr>logger := logger st @ [Hash_is_available (index segment)]\<rparr>)
            else
              validatePieceHash segment expectedPieceHash
                (digest C (disk st) (position segment) (length_s segment)) st)
         else (st\<lparr>segmentMan := completeSegment (cuid st) segment (segmentMan st)\<rparr>, None))
      else (st\<lparr>segmentMan := completeSegment (cuid st) segment (segmentMan st)\<rparr>, None))"

text \<open>
  Lines 170-178 of \<open>executeInternal\<close>: the transfer decoder is ended, the completion is
  logged, and an unfinished content decoder is warned about.
\<close>

definition executeInternal_finalize :: "('t, 'c) collaborators \<Rightarrow> ('t, 'c) state \<Rightarrow> ('t, 'c) state" where
  "executeInternal_finalize C st =
     (let st1 = st\<lparr>transferDecoder := map_option (td_end C) (transferDecoder st)\<rparr>;
          st2 = st1\<lparr>logger := logger st1 @ [MSG_SEGMENT_DOWNLOAD_COMPLETED (cuid st1)]\<rparr>
      in case contentEncodingDecoder st2 of
           Some c \<Rightarrow>
             if \<not> ce_finished C c
             then st2\<lparr>logger := logger st2 @ [Inflate_not_finished (cuid st2)]\<rparr>
             else st2
         | None \<Rightarrow> st2)"

text \<open>
  Lines 170-211 of \<open>executeInternal\<close>: the branch taken when the transfer of the
  segment is done.
\<close>

definition executeInternal_done ::
  "('t, 'c) collaborators \<Rightarrow> env \<Rightarrow> Segment \<Rightarrow> ('t, 'c) state \<Rightarrow> ('t, 'c) state \<times> outcome" where
  "executeInternal_done C E segment st =
     (case executeInternal_validate C E segment (executeInternal_finalize C st) of
        (st4, Some e) \<Rightarrow> (st4, Thrown e)
      | (st4, None) \<Rightarrow>
          (case checkLowestDownloadSpeed E st4 of
             Some e \<Rightarrow> (st4, Thrown e)
           | None \<Rightarrow> prepareForNextSegment C E st4))"

text \<open>Lines 167-169 of \<open>executeInternal\<close>: the completion test, \<open>n\<close> bytes having been read.\<close>

definition transferDone :: "('t, 'c) collaborators \<Rightarrow> nat \<Rightarrow> Segment \<Rightarrow> ('t, 'c) state \<Rightarrow> bool" where
  "transferDone C n segment st =
     ((case transferDecoder st of Some t \<Rightarrow> td_finished C t | None \<Rightarrow> False)
      \<or> (transferDecoder st = None \<and> complete segment)
      \<or> n = 0)"

text \<open>
  Lines 164-216 of \<open>executeInternal\<close>: the end-of-stream check, the completion test and
  its two branches. \<open>n\<close> is the number of bytes read in this step.
\<close>

definition executeInternal_finish ::
  "('t, 'c) collaborators \<Rightarrow> env \<Rightarrow> nat \<Rightarrow> ('t, 'c) state \<Rightarrow> ('t, 'c) state \<times> outcome" where
  "executeInternal_finish C E n st =
     (case segments st of
        [] \<Rightarrow> (st, FrontOfEmpty)
      | segment # rest \<Rightarrow>
          if getTotalLength E \<noteq> 0 \<and> n = 0 then (st, Thrown (DlRetryEx EX_GOT_EOF))
          else if transferDone C n segment st then executeInternal_done C E segment st
          else
            (case checkLowestDownloadSpeed E st of
               Some e \<Rightarrow> (st, Thrown e)
             | None \<Rightarrow> (st\<lparr>commands := commands st @ [DownloadCommand (cuid st)]\<rparr>, Returned False)))"

text \<open>Lines 103-217: the step.\<close>

definition executeInternal ::
  "('t, 'c) collaborators \<Rightarrow> env \<Rightarrow> ('t, 'c) state \<Rightarrow> ('t, 'c) state \<times> outcome" where
  "executeInternal C E st =
     (if 0 < maxDownloadSpeedLimit st \<and> maxDownloadSpeedLimit st < calculateDownloadSpeed_group E
      then (st\<lparr>commands := commands st @ [DownloadCommand (cuid st)],
               checkSocketIsReadable := False\<rparr>, Returned False)
      else
        (let st0 = st\<lparr>checkSocketIsReadable := True\<rparr> in
         case segments st0 of
           [] \<Rightarrow> (st0, FrontOfEmpty)
         | segment # rest \<Rightarrow>
             (let buf = readData E (bufSize segment)
              in executeInternal_finish C E (length buf) (executeInternal_store C E buf st0))))"


subsection \<open>A concrete configuration\<close>

text \<open>
  One connection (cuid 1) that owns segment 3 of a download of 1000 bytes in total, half of
  the segment written. When an example configures decoders, the transfer decoder drops the
  first byte of its input and the content decoder emits every input byte twice.
\<close>

definition segment_ex :: Segment where
  "segment_ex = \<lparr>index = 3, position = 3000, length_s = 1000, writtenLength = 500, hashed = []\<rparr>"

definition state_ex :: "(unit, unit) state" where
  "state_ex =
     \<lparr>cuid = 1, segments = [segment_ex], transferDecoder = None, contentEncodingDecoder = None,
      pieceHashValidationEnabled = True, maxDownloadSpeedLimit = 0, lowestDownloadSpeedLimit = 0,
      startupIdleTime = 10, peerStat = \<lparr>downloadStartTime = 0, downloadLength = 0\<rparr>,
      checkSocketIsReadable = True, commands = [], disk = (\<lambda>i. 0),
      segmentMan = \<lparr>owned = [(1, 3), (2, 4)], completed = []\<rparr>, logger = []\<rparr>"

definition env_ex :: env where
  "env_ex =
     \<lparr>calculateDownloadSpeed_group = 0, incoming = [1, 2], junk = (\<lambda>i. 170),
      infbuf_when_persisted = (\<lambda>i. 9), infbuf_when_hashed = (\<lambda>i. 8), getTotalLength = 1000,
      getPieceHash = (\<lambda>i. []), currentTime = 5, calculateDownloadSpeed_peer = 0,
      getHost = ''example.org'', downloadFinished = False, isValidationReady = False, newID = 7,
      getSegment = (\<lambda>c i. None)\<rparr>"

definition collaborators_ex :: "(unit, unit) collaborators" where
  "collaborators_ex =
     \<lparr>ENABLE_MESSAGE_DIGEST = True,
      inflate = (\<lambda>t outlen inbuf. (drop 1 inbuf, t)), td_finished = (\<lambda>t. False), td_end = (\<lambda>t. t),
      decode = (\<lambda>c inbuf. (concat (map (\<lambda>b. [b, b]) inbuf), c)), ce_finished = (\<lambda>c. False),
      isHashCalculated = (\<lambda>s. False), getHashString = (\<lambda>s. []), digest = (\<lambda>d off n. [])\<rparr>"

section \<open>Properties\<close>

subsection \<open>Auxiliary facts\<close>

lemma readMem_all: "readMem xs mem (length xs) = xs"
  by (simp add: readMem_def)

lemma store_segments:
  "segments st = segment # rest \<Longrightarrow> \<exists>s'. segments (executeInternal_store C E buf st) = s' # rest"
  by (simp add: executeInternal_store_def Let_def split: option.splits prod.splits)

lemma finish_EOF:
  "segments st = segment # rest \<Longrightarrow> getTotalLength E \<noteq> 0 \<Longrightarrow>
   executeInternal_finish C E 0 st = (st, Thrown (DlRetryEx EX_GOT_EOF))"
  by (simp add: executeInternal_finish_def)

lemma validatePieceHash_no_abort:
  "snd (validatePieceHash segment e a st) \<noteq> Some (DlAbortEx m)"
  by (simp add: validatePieceHash_def)

lemma validate_no_abort:
  "snd (executeInternal_validate C E segment st) \<noteq> Some (DlAbortEx m)"
  by (simp add: executeInternal_validate_def Let_def validatePieceHash_no_abort)

lemma validate_limits:
  "lowestDownloadSpeedLimit (fst (executeInternal_validate C E segment st)) = lowestDownloadSpeedLimit st"
  by (simp add: executeInternal_validate_def Let_def validatePieceHash_def)

lemma prepareForNextSegment_no_throw:
  "snd (prepareForNextSegment C E st) \<noteq> Thrown e"
  by (simp add: prepareForNextSegment_def split: list.splits option.splits)

lemma check_zero: "lowestDownloadSpeedLimit st = 0 \<Longrightarrow> checkLowestDownloadSpeed E st = None"
  by (simp add: checkLowestDownloadSpeed_def)

lemma finalize_limit:
  "lowestDownloadSpeedLimit (executeInternal_finalize C st) = lowestDownloadSpeedLimit st"
  by (simp add: executeInternal_finalize_def Let_def split: option.splits)

lemma done_no_abort:
  assumes "lowestDownloadSpeedLimit st = 0"
  shows "snd (executeInternal_done C E segment st) \<noteq> Thrown (DlAbortEx m)"
proof -
  obtain st4 r where v: "executeInternal_validate C E segment (executeInternal_finalize C st) = (st4, r)"
    by (cases "executeInternal_validate C E segment (executeInternal_finalize C st)")
  have lim4: "lowestDownloadSpeedLimit st4 = 0"
    using validate_limits [of C E segment "executeInternal_finalize C st"] v assms
    by (simp add: finalize_limit)
  have r: "r \<noteq> Some (DlAbortEx m)"
    using validate_no_abort [of C E segment "executeInternal_finalize C st" m] v by simp
  show ?thesis
    using r v
    by (cases r) (simp_all add: executeInternal_done_def check_zero [OF lim4] prepareForNextSegment_no_throw)
qed

lemma finish_no_abort:
  assumes "lowestDownloadSpeedLimit st = 0"
  shows "snd (executeInternal_finish C E n st) \<noteq> Thrown (DlAbortEx m)"
  using assms
  by (simp add: executeInternal_finish_def done_no_abort check_zero split: list.splits)

lemma store_limit:
  "lowestDownloadSpeedLimit (executeInternal_store C E buf st) = lowestDownloadSpeedLimit st"
  by (simp add: executeInternal_store_def Let_def split: list.splits option.splits prod.splits)

lemmas step_defs =
  executeInternal_def executeInternal_store_def executeInternal_finish_def executeInternal_done_def
  executeInternal_finalize_def executeInternal_validate_def validatePieceHash_def
  prepareForNextSegment_def checkLowestDownloadSpeed_def transferDone_def elapsed_def complete_def
  clear_def updateWrittenLength_def updateHash_def updateDownloadLength_def getPositionToWrite_def
  completeSegment_def cancelSegment_def readData_def bufSize_def size_t_sub_def readMem_def Let_def

lemmas example_defs = state_ex_def env_ex_def segment_ex_def collaborators_ex_def

lemma readDisk_writeData: "readDisk (writeData d xs off) off (length xs) = xs"
  by (rule nth_equalityI) (simp_all add: readDisk_def writeData_def)

text \<open>A step that the speed ceiling does not hold back reads, stores and finishes.\<close>

lemma step_reads:
  assumes "\<not> (0 < maxDownloadSpeedLimit st \<and> maxDownloadSpeedLimit st < calculateDownloadSpeed_group E)"
    and "segments st = segment # rest"
  shows "executeInternal C E st =
     executeInternal_finish C E (length (readData E (bufSize segment)))
       (executeInternal_store C E (readData E (bufSize segment)) (st\<lparr>checkSocketIsReadable := True\<rparr>))"
  using assms by (auto simp: executeInternal_def Let_def)

text \<open>The speed check reads the start time, the grace period and the floor only.\<close>

lemma check_cong:
  "downloadStartTime (peerStat st') = downloadStartTime (peerStat st) \<Longrightarrow>
   startupIdleTime st' = startupIdleTime st \<Longrightarrow>
   lowestDownloadSpeedLimit st' = lowestDownloadSpeedLimit st \<Longrightarrow>
   checkLowestDownloadSpeed E st' = checkLowestDownloadSpeed E st"
  by (simp add: checkLowestDownloadSpeed_def Let_def)

lemma check_store:
  "checkLowestDownloadSpeed E' (executeInternal_store C E buf st) = checkLowestDownloadSpeed E' st"
  by (rule check_cong)
    (simp_all add: executeInternal_store_def Let_def updateDownloadLength_def
      split: list.splits option.splits prod.splits)

lemma check_finalize:
  "checkLowestDownloadSpeed E (executeInternal_finalize C st) = checkLowestDownloadSpeed E st"
  by (rule check_cong) (simp_all add: executeInternal_finalize_def Let_def split: option.splits)

lemma check_validate:
  "checkLowestDownloadSpeed E' (fst (executeInternal_validate C E segment st)) = checkLowestDownloadSpeed E' st"
  by (rule check_cong) (simp_all add: executeInternal_validate_def Let_def validatePieceHash_def)

lemma validate_throws_retry:
  "snd (executeInternal_validate C E segment st) = Some e \<Longrightarrow>
   e = DlRetryEx (Invalid_checksum_index (index segment))"
  by (simp add: executeInternal_validate_def Let_def validatePieceHash_def clear_def split: if_splits)

lemma done_outcome:
  "snd (executeInternal_done C E segment st) = Thrown (DlRetryEx (Invalid_checksum_index (index segment)))
   \<or> (case checkLowestDownloadSpeed E st of
         Some e \<Rightarrow> snd (executeInternal_done C E segment st) = Thrown e
       | None \<Rightarrow> \<exists>st4. executeInternal_done C E segment st = prepareForNextSegment C E st4)"
proof -
  obtain st4 r where v: "executeInternal_validate C E segment (executeInternal_finalize C st) = (st4, r)"
    by (cases "executeInternal_validate C E segment (executeInternal_finalize C st)")
  have c: "checkLowestDownloadSpeed E st4 = checkLowestDownloadSpeed E st"
    using check_validate [of E C E segment "executeInternal_finalize C st"] v
    by (simp add: check_finalize)
  show ?thesis
  proof (cases r)
    case None
    then show ?thesis using v c
      by (auto simp: executeInternal_done_def split: option.splits)
  next
    case (Some e)
    then have "e = DlRetryEx (Invalid_checksum_index (index segment))"
      using validate_throws_retry [of C E segment "executeInternal_finalize C st" e] v by simp
    then show ?thesis using v Some by (simp add: executeInternal_done_def)
  qed
qed

text \<open>What the end of a step throws, relative to the speed check on the state it started from.\<close>

lemma finish_outcome:
  assumes "segments st = segment # rest"
  shows "(\<exists>m. snd (executeInternal_finish C E n st) = Thrown (DlRetryEx m))
   \<or> (case checkLowestDownloadSpeed E st of
         Some e \<Rightarrow> snd (executeInternal_finish C E n st) = Thrown e
       | None \<Rightarrow> \<forall>e. snd (executeInternal_finish C E n st) \<noteq> Thrown e)"
proof (cases "getTotalLength E \<noteq> 0 \<and> n = 0")
  case True
  then show ?thesis using assms by (simp add: executeInternal_finish_def)
next
  case False
  show ?thesis
  proof (cases "transferDone C n segment st")
    case True
    then have eq: "executeInternal_finish C E n st = executeInternal_done C E segment st"
      using assms False by (auto simp: executeInternal_finish_def)
    show ?thesis
      using done_outcome [of C E segment st] unfolding eq
      by (auto split: option.splits simp: prepareForNextSegment_no_throw)
  next
    case nd: False
    then show ?thesis using assms False
      by (auto simp: executeInternal_finish_def split: option.splits)
  qed
qed

lemma step_outcome:
  assumes "\<not> (0 < maxDownloadSpeedLimit st \<and> maxDownloadSpeedLimit st < calculateDownloadSpeed_group E)"
    and "segments st = segment # rest"
  shows "(\<exists>m. snd (executeInternal C E st) = Thrown (DlRetryEx m))
   \<or> (case checkLowestDownloadSpeed E st of
         Some e \<Rightarrow> snd (executeInternal C E st) = Thrown e
       | None \<Rightarrow> \<forall>e. snd (executeInternal C E st) \<noteq> Thrown e)"
proof -
  let ?st0 = "st\<lparr>checkSocketIsReadable := True\<rparr>"
  let ?buf = "readData E (bufSize segment)"
  have seg0: "segments ?st0 = segment # rest" using assms(2) by simp
  obtain s' where s': "segments (executeInternal_store C E ?buf ?st0) = s' # rest"
    using store_segments [OF seg0] by blast
  have c: "checkLowestDownloadSpeed E (executeInternal_store C E ?buf ?st0) = checkLowestDownloadSpeed E st"
    unfolding check_store by (rule check_cong) simp_all
  show ?thesis
    using finish_outcome [OF s', of C E "length ?buf"]
    unfolding step_reads [OF assms] c .
qed

text \<open>The log grows by the completion message exactly in the branch of a finished transfer.\<close>

lemma logger_store: "logger (executeInternal_store C E buf st) = logger st"
  by (simp add: executeInternal_store_def Let_def split: list.splits option.splits prod.splits)

lemma cuid_store: "cuid (executeInternal_store C E buf st) = cuid st"
  by (simp add: executeInternal_store_def Let_def split: list.splits option.splits prod.splits)

lemma logger_finalize:
  "\<exists>es. logger (executeInternal_finalize C st) = logger st @ MSG_SEGMENT_DOWNLOAD_COMPLETED (cuid st) # es"
  by (simp add: executeInternal_finalize_def Let_def split: option.splits)

lemma logger_validate:
  "\<exists>es. logger (fst (executeInternal_validate C E segment st)) = logger st @ es"
  by (simp add: executeInternal_validate_def Let_def validatePieceHash_def)

lemma logger_prepareForNextSegment:
  "logger (fst (prepareForNextSegment C E st)) = logger st"
  by (simp add: prepareForNextSegment_def split: list.splits option.splits)

lemma logger_done:
  "\<exists>es. logger (fst (executeInternal_done C E segment st))
         = logger st @ MSG_SEGMENT_DOWNLOAD_COMPLETED (cuid st) # es"
proof -
  obtain st4 r where v: "executeInternal_validate C E segment (executeInternal_finalize C st) = (st4, r)"
    by (cases "executeInternal_validate C E segment (executeInternal_finalize C st)")
  obtain es1 where e1: "logger (executeInternal_finalize C st)
      = logger st @ MSG_SEGMENT_DOWNLOAD_COMPLETED (cuid st) # es1"
    using logger_finalize by blast
  obtain es2 where e2: "logger st4 = logger (executeInternal_finalize C st) @ es2"
    using logger_validate [of C E segment "executeInternal_finalize C st"] v by auto
  have l4: "logger st4 = logger st @ MSG_SEGMENT_DOWNLOAD_COMPLETED (cuid st) # (es1 @ es2)"
    using e1 e2 by simp
  have "logger (fst (executeInternal_done C E segment st)) = logger st4"
    using v by (simp add: executeInternal_done_def logger_prepareForNextSegment split: option.splits)
  then show ?thesis using l4 by (intro exI [of _ "es1 @ es2"]) simp
qed

lemma logger_finish:
  assumes "segments st = segment # rest" and "\<not> (getTotalLength E \<noteq> 0 \<and> n = 0)"
  shows "MSG_SEGMENT_DOWNLOAD_COMPLETED (cuid st)
           \<in> set (drop (length (logger st)) (logger (fst (executeInternal_finish C E n st))))
         \<longleftrightarrow> transferDone C n segment st"
proof (cases "transferDone C n segment st")
  case True
  then have eq: "executeInternal_finish C E n st = executeInternal_done C E segment st"
    using assms by (auto simp: executeInternal_finish_def)
  obtain es where "logger (fst (executeInternal_done C E segment st))
         = logger st @ MSG_SEGMENT_DOWNLOAD_COMPLETED (cuid st) # es"
    using logger_done by blast
  then show ?thesis using True eq by simp
next
  case False
  then have "logger (fst (executeInternal_finish C E n st)) = logger st"
    using assms by (auto simp: executeInternal_finish_def split: option.splits)
  then show ?thesis using False by simp
qed

text \<open>The front segment through a step: kept, or cleared by a failed validation.\<close>

lemma segments_finalize: "segments (executeInternal_finalize C st) = segments st"
  by (simp add: executeInternal_finalize_def Let_def split: option.splits)

lemma segments_prepareForNextSegment: "segments (fst (prepareForNextSegment C E st)) = segments st"
  by (simp add: prepareForNextSegment_def split: list.splits option.splits)

lemma segments_validate:
  assumes "segments st = segment # rest"
  shows "(snd (executeInternal_validate C E segment st) = None
          \<and> segments (fst (executeInternal_validate C E segment st)) = segment # rest)
     \<or> (snd (executeInternal_validate C E segment st)
            = Some (DlRetryEx (Invalid_checksum_index (index segment)))
          \<and> segments (fst (executeInternal_validate C E segment st)) = clear segment # rest)"
  using assms
  by (simp add: executeInternal_validate_def Let_def validatePieceHash_def clear_def)





text \<open>With neither decoder the hash is fed the bytes that were written.\<close>

lemma store_hash_fed_plain:
  assumes "segments st = segment # rest"
    and "ENABLE_MESSAGE_DIGEST C" and "pieceHashValidationEnabled st"
    and "transferDecoder st = None" and "contentEncodingDecoder st = None"
  shows "\<exists>s' dat. segments (executeInternal_store C E buf st) = s' # rest
      \<and> hashed s' = hashed segment @ [(writtenLength segment, dat)]
      \<and> readDisk (disk (executeInternal_store C E buf st)) (getPositionToWrite segment) (length dat) = dat"
  using assms
  by (simp add: executeInternal_store_def Let_def updateWrittenLength_def updateHash_def
      readMem_all readDisk_writeData)

text \<open>The end of a step, exactly: what it throws, and what it leaves of the front segment and the disk.\<close>

lemma validate_snd:
  "snd (executeInternal_validate C E segment st) =
     (if ENABLE_MESSAGE_DIGEST C \<and> pieceHashValidationEnabled st
         \<and> getPieceHash E (index segment) \<noteq> []
         \<and> (if isHashCalculated C segment then getHashString C segment
             else digest C (disk st) (position segment) (length_s segment))
            \<noteq> getPieceHash E (index segment)
      then Some (DlRetryEx (Invalid_checksum_index (index segment))) else None)"
  by (simp add: executeInternal_validate_def Let_def validatePieceHash_def clear_def)

lemma frame_finalize:
  "pieceHashValidationEnabled (executeInternal_finalize C st) = pieceHashValidationEnabled st"
  "disk (executeInternal_finalize C st) = disk st"
  by (simp_all add: executeInternal_finalize_def Let_def split: option.splits)

lemma disk_validate: "disk (fst (executeInternal_validate C E segment st)) = disk st"
  by (simp add: executeInternal_validate_def Let_def validatePieceHash_def)

lemma disk_prepareForNextSegment: "disk (fst (prepareForNextSegment C E st)) = disk st"
  by (simp add: prepareForNextSegment_def split: list.splits option.splits)

lemma disk_done: "disk (fst (executeInternal_done C E segment st)) = disk st"
proof -
  obtain st4 r where v: "executeInternal_validate C E segment (executeInternal_finalize C st) = (st4, r)"
    by (cases "executeInternal_validate C E segment (executeInternal_finalize C st)")
  have "disk st4 = disk st"
    using disk_validate [of C E segment "executeInternal_finalize C st"] v
    by (simp add: frame_finalize)
  then show ?thesis using v
    by (simp add: executeInternal_done_def disk_prepareForNextSegment split: option.splits)
qed

lemma disk_finish: "disk (fst (executeInternal_finish C E n st)) = disk st"
  by (simp add: executeInternal_finish_def disk_done split: list.splits option.splits)

lemma done_snd_slow:
  assumes "checkLowestDownloadSpeed E st = Some e"
  shows "snd (executeInternal_done C E segment st) =
     (if ENABLE_MESSAGE_DIGEST C \<and> pieceHashValidationEnabled st
         \<and> getPieceHash E (index segment) \<noteq> []
         \<and> (if isHashCalculated C segment then getHashString C segment
             else digest C (disk st) (position segment) (length_s segment))
            \<noteq> getPieceHash E (index segment)
      then Thrown (DlRetryEx (Invalid_checksum_index (index segment))) else Thrown e)"
proof -
  obtain st4 r where v: "executeInternal_validate C E segment (executeInternal_finalize C st) = (st4, r)"
    by (cases "executeInternal_validate C E segment (executeInternal_finalize C st)")
  have c: "checkLowestDownloadSpeed E st4 = Some e"
    using check_validate [of E C E segment "executeInternal_finalize C st"] v assms
    by (simp add: check_finalize)
  have r: "r = (if ENABLE_MESSAGE_DIGEST C \<and> pieceHashValidationEnabled st
         \<and> getPieceHash E (index segment) \<noteq> []
         \<and> (if isHashCalculated C segment then getHashString C segment
             else digest C (disk st) (position segment) (length_s segment))
            \<noteq> getPieceHash E (index segment)
      then Some (DlRetryEx (Invalid_checksum_index (index segment))) else None)"
    using validate_snd [of C E segment "executeInternal_finalize C st"] v
    by (simp add: frame_finalize)
  show ?thesis
    unfolding executeInternal_done_def v
    by (simp add: r c)
qed

lemma finish_snd_slow:
  assumes "segments st = segment # rest" and "checkLowestDownloadSpeed E st = Some e"
  shows "snd (executeInternal_finish C E n st) =
     (if getTotalLength E \<noteq> 0 \<and> n = 0 then Thrown (DlRetryEx EX_GOT_EOF)
      else if transferDone C n segment st
         \<and> ENABLE_MESSAGE_DIGEST C \<and> pieceHashValidationEnabled st
         \<and> getPieceHash E (index segment) \<noteq> []
         \<and> (if isHashCalculated C segment then getHashString C segment
             else digest C (disk st) (position segment) (length_s segment))
            \<noteq> getPieceHash E (index segment)
      then Thrown (DlRetryEx (Invalid_checksum_index (index segment))) else Thrown e)"
  using assms done_snd_slow [OF assms(2), of C segment]
  by (simp add: executeInternal_finish_def)

lemma done_segments_exact:
  assumes "segments st = segment # rest"
  shows "segments (fst (executeInternal_done C E segment st)) =
     (if snd (executeInternal_done C E segment st)
           = Thrown (DlRetryEx (Invalid_checksum_index (index segment)))
      then clear segment # rest else segment # rest)"
proof -
  obtain st4 r where v: "executeInternal_validate C E segment (executeInternal_finalize C st) = (st4, r)"
    by (cases "executeInternal_validate C E segment (executeInternal_finalize C st)")
  have f: "segments (executeInternal_finalize C st) = segment # rest"
    using assms by (simp add: segments_finalize)
  show ?thesis
  proof (cases r)
    case None
    then have s4: "segments st4 = segment # rest"
      using segments_validate [OF f, of C E] v by simp
    show ?thesis
    proof (cases "checkLowestDownloadSpeed E st4")
      case n: None
      have "snd (prepareForNextSegment C E st4)
              \<noteq> Thrown (DlRetryEx (Invalid_checksum_index (index segment)))"
        by (rule prepareForNextSegment_no_throw)
      then show ?thesis using v None n s4
        by (simp add: executeInternal_done_def segments_prepareForNextSegment)
    next
      case (Some e)
      then have "\<exists>m. e = DlAbortEx m"
        by (auto simp: checkLowestDownloadSpeed_def Let_def split: if_splits)
      then show ?thesis using v None Some s4
        by (auto simp: executeInternal_done_def)
    qed
  next
    case (Some e)
    then have "e = DlRetryEx (Invalid_checksum_index (index segment))
        \<and> segments st4 = clear segment # rest"
      using segments_validate [OF f, of C E] v by simp
    then show ?thesis using v Some by (simp add: executeInternal_done_def)
  qed
qed

lemma finish_segments_exact:
  assumes "segments st = segment # rest"
  shows "segments (fst (executeInternal_finish C E n st)) =
     (if snd (executeInternal_finish C E n st)
           = Thrown (DlRetryEx (Invalid_checksum_index (index segment)))
      then clear segment # rest else segment # rest)"
proof -
  have "\<And>e. checkLowestDownloadSpeed E st = Some e \<Longrightarrow> \<exists>m. e = DlAbortEx m"
    by (auto simp: checkLowestDownloadSpeed_def Let_def split: if_splits)
  then show ?thesis
    using assms done_segments_exact [OF assms, of C E]
    by (auto simp: executeInternal_finish_def split: option.splits)
qed

lemma store_front:
  assumes "segments st = segment # rest"
  shows "\<exists>s'. segments (executeInternal_store C E buf st) = s' # rest
            \<and> index s' = index segment \<and> position s' = position segment
            \<and> length_s s' = length_s segment"
    and "pieceHashValidationEnabled (executeInternal_store C E buf st) = pieceHashValidationEnabled st"
  using assms
  by (simp_all add: executeInternal_store_def Let_def updateWrittenLength_def updateHash_def
      split: option.splits prod.splits)











subsection \<open>Premature end of stream\<close>

text \<open>
  Claim C4. In every step that reads (the speed ceiling does not hold it back and the
  command owns a segment), if the request group's total length is not zero and the read
  returned no byte, the step throws the retryable \<open>DlRetryEx\<close> with \<open>EX_GOT_EOF\<close>; it
  does not complete.
\<close>

theorem executeInternal_premature_EOF:
  assumes "\<not> (0 < maxDownloadSpeedLimit st \<and> maxDownloadSpeedLimit st < calculateDownloadSpeed_group E)"
    and "segments st = segment # rest"
    and "getTotalLength E \<noteq> 0"
    and "readData E (bufSize segment) = []"
  shows "snd (executeInternal C E st) = Thrown (DlRetryEx EX_GOT_EOF)"
proof -
  let ?st0 = "st\<lparr>checkSocketIsReadable := True\<rparr>"
  have seg0: "segments ?st0 = segment # rest" using assms(2) by simp
  obtain s' where s': "segments (executeInternal_store C E [] ?st0) = s' # rest"
    using store_segments [OF seg0] by blast
  have "executeInternal C E st = executeInternal_finish C E 0 (executeInternal_store C E [] ?st0)"
    using assms(1,2,4) by (auto simp: executeInternal_def Let_def)
  then show ?thesis
    using finish_EOF [OF s' assms(3)] by simp
qed

text \<open>The spec's scenario: 1000 bytes expected, 500 written, the read returns nothing.\<close>

theorem executeInternal_premature_EOF_witness:
  "segments state_ex = segment_ex # []
   \<and> getTotalLength (env_ex\<lparr>incoming := []\<rparr>) = 1000
   \<and> writtenLength segment_ex = 500
   \<and> readData (env_ex\<lparr>incoming := []\<rparr>) (bufSize segment_ex) = []
   \<and> snd (executeInternal collaborators_ex (env_ex\<lparr>incoming := []\<rparr>) state_ex)
       = Thrown (DlRetryEx EX_GOT_EOF)"
  using executeInternal_premature_EOF
    [of state_ex "env_ex\<lparr>incoming := []\<rparr>" segment_ex "[]" collaborators_ex]
  by (simp add: state_ex_def env_ex_def readData_def segment_ex_def)

subsection \<open>Piece hash validation\<close>

text \<open>
  Claim C5. When the computed hash differs from the expected one, \<open>validatePieceHash\<close>
  clears the segment (written length 0, no hash state), releases what the connection owns
  in the registry without marking anything complete, and throws \<open>DlRetryEx\<close> carrying
  the segment's index. When the hashes are equal it marks the segment complete in the
  registry for this connection, leaves the segment as it is, and throws nothing.
\<close>

theorem validatePieceHash_mismatch_and_match:
  "(actual \<noteq> expected \<longrightarrow>
      snd (validatePieceHash segment expected actual st)
        = Some (DlRetryEx (Invalid_checksum_index (index segment)))
    \<and> (\<exists>s'. segments (fst (validatePieceHash segment expected actual st)) = s' # tl (segments st)
           \<and> writtenLength s' = 0 \<and> hashed s' = []
           \<and> index s' = index segment \<and> position s' = position segment \<and> length_s s' = length_s segment)
    \<and> (\<forall>i. (cuid st, i) \<notin> set (owned (segmentMan (fst (validatePieceHash segment expected actual st)))))
    \<and> completed (segmentMan (fst (validatePieceHash segment expected actual st))) = completed (segmentMan st))
   \<and> (actual = expected \<longrightarrow>
      snd (validatePieceHash segment expected actual st) = None
    \<and> completed (segmentMan (fst (validatePieceHash segment expected actual st)))
        = completed (segmentMan st) @ [(cuid st, index segment)]
    \<and> owned (segmentMan (fst (validatePieceHash segment expected actual st))) = owned (segmentMan st)
    \<and> segments (fst (validatePieceHash segment expected actual st)) = segments st)"
  by (auto simp: validatePieceHash_def clear_def cancelSegment_def completeSegment_def)

text \<open>The spec's scenario: expected abc123, computed def456, segment 3; then equal hashes.\<close>

theorem validatePieceHash_mismatch_and_match_witness:
  "snd (validatePieceHash segment_ex ''abc123'' ''def456'' state_ex)
     = Some (DlRetryEx (Invalid_checksum_index 3))
   \<and> map writtenLength (segments (fst (validatePieceHash segment_ex ''abc123'' ''def456'' state_ex))) = [0]
   \<and> owned (segmentMan (fst (validatePieceHash segment_ex ''abc123'' ''def456'' state_ex))) = [(2, 4)]
   \<and> snd (validatePieceHash segment_ex ''abc123'' ''abc123'' state_ex) = None
   \<and> completed (segmentMan (fst (validatePieceHash segment_ex ''abc123'' ''abc123'' state_ex))) = [(1, 3)]"
  using validatePieceHash_mismatch_and_match [of "''def456''" "''abc123''" segment_ex state_ex]
    validatePieceHash_mismatch_and_match [of "''abc123''" "''abc123''" segment_ex state_ex]
  by (simp add: state_ex_def segment_ex_def validatePieceHash_def clear_def cancelSegment_def)

subsection \<open>The continuation decision\<close>

text \<open>
  Claim C6. \<open>prepareForNextSegment\<close>: when the request group reports the download
  finished, it returns true and enqueues one \<open>CheckIntegrityCommand\<close> exactly when the
  digest support is compiled in and the full-file validation is ready, and nothing
  otherwise. When the download is not finished, the command owns a segment, and the
  registry yields the segment of the next index with written length 0, it enqueues itself
  and returns false. In every other case it hands over to \<open>prepareForRetry(0)\<close>, the
  state untouched.
\<close>

theorem prepareForNextSegment_decision:
  "(downloadFinished E \<longrightarrow>
      snd (prepareForNextSegment C E st) = Returned True
    \<and> commands (fst (prepareForNextSegment C E st)) =
        commands st @ (if ENABLE_MESSAGE_DIGEST C \<and> isValidationReady E
                       then [CheckIntegrityCommand (newID E)] else []))
   \<and> (\<not> downloadFinished E \<longrightarrow>
       (\<forall>current rest next.
          segments st = current # rest
          \<and> getSegment E (cuid st) (index current + 1) = Some next
          \<and> writtenLength next = 0 \<longrightarrow>
            prepareForNextSegment C E st =
              (st\<lparr>commands := commands st @ [DownloadCommand (cuid st)]\<rparr>, Returned False))
     \<and> (\<not> (\<exists>current rest next.
          segments st = current # rest
          \<and> getSegment E (cuid st) (index current + 1) = Some next
          \<and> writtenLength next = 0) \<longrightarrow>
            prepareForNextSegment C E st = (st, PrepareForRetry 0)))"
  by (auto simp: prepareForNextSegment_def split: list.splits option.splits)

theorem prepareForNextSegment_decision_witness:
  "snd (prepareForNextSegment collaborators_ex
          (env_ex\<lparr>downloadFinished := True, isValidationReady := True\<rparr>) state_ex) = Returned True
   \<and> commands (fst (prepareForNextSegment collaborators_ex
          (env_ex\<lparr>downloadFinished := True, isValidationReady := True\<rparr>) state_ex))
       = [CheckIntegrityCommand 7]
   \<and> prepareForNextSegment collaborators_ex
        (env_ex\<lparr>getSegment := (\<lambda>c i. if c = 1 \<and> i = 4
            then Some (segment_ex\<lparr>index := 4, position := 4000, writtenLength := 0\<rparr>) else None)\<rparr>)
        state_ex
       = (state_ex\<lparr>commands := [DownloadCommand 1]\<rparr>, Returned False)
   \<and> prepareForNextSegment collaborators_ex env_ex state_ex = (state_ex, PrepareForRetry 0)"
  using prepareForNextSegment_decision
      [of "env_ex\<lparr>downloadFinished := True, isValidationReady := True\<rparr>" collaborators_ex state_ex]
    prepareForNextSegment_decision
      [of "env_ex\<lparr>getSegment := (\<lambda>c i. if c = 1 \<and> i = 4
            then Some (segment_ex\<lparr>index := 4, position := 4000, writtenLength := 0\<rparr>) else None)\<rparr>"
          collaborators_ex state_ex]
    prepareForNextSegment_decision [of env_ex collaborators_ex state_ex]
  by (simp add: state_ex_def env_ex_def collaborators_ex_def segment_ex_def)

subsection \<open>The speed ceiling\<close>

text \<open>
  Claim C8. When a maximum download speed is configured (positive) and the request group's
  aggregate speed exceeds it, the step enqueues itself, switches the read check of the
  socket off and returns false. The segments (written length and hash state), the disk
  and the speed tracker are as before, and the result does not depend on what the socket
  holds: nothing is read.
\<close>

theorem executeInternal_throttled_frame:
  assumes "0 < maxDownloadSpeedLimit st" and "maxDownloadSpeedLimit st < calculateDownloadSpeed_group E"
  shows "snd (executeInternal C E st) = Returned False
    \<and> commands (fst (executeInternal C E st)) = commands st @ [DownloadCommand (cuid st)]
    \<and> checkSocketIsReadable (fst (executeInternal C E st)) = False
    \<and> segments (fst (executeInternal C E st)) = segments st
    \<and> disk (fst (executeInternal C E st)) = disk st
    \<and> peerStat (fst (executeInternal C E st)) = peerStat st
    \<and> (\<forall>xs. executeInternal C (E\<lparr>incoming := xs\<rparr>) st = executeInternal C E st)"
  using assms by (simp add: executeInternal_def)

theorem executeInternal_throttled_frame_witness:
  "0 < maxDownloadSpeedLimit (state_ex\<lparr>maxDownloadSpeedLimit := 100\<rparr>)
   \<and> maxDownloadSpeedLimit (state_ex\<lparr>maxDownloadSpeedLimit := 100\<rparr>)
       < calculateDownloadSpeed_group (env_ex\<lparr>calculateDownloadSpeed_group := 150\<rparr>)
   \<and> snd (executeInternal collaborators_ex (env_ex\<lparr>calculateDownloadSpeed_group := 150\<rparr>)
            (state_ex\<lparr>maxDownloadSpeedLimit := 100\<rparr>)) = Returned False
   \<and> commands (fst (executeInternal collaborators_ex (env_ex\<lparr>calculateDownloadSpeed_group := 150\<rparr>)
            (state_ex\<lparr>maxDownloadSpeedLimit := 100\<rparr>))) = [DownloadCommand 1]
   \<and> segments (fst (executeInternal collaborators_ex (env_ex\<lparr>calculateDownloadSpeed_group := 150\<rparr>)
            (state_ex\<lparr>maxDownloadSpeedLimit := 100\<rparr>))) = [segment_ex]"
  using executeInternal_throttled_frame [of "state_ex\<lparr>maxDownloadSpeedLimit := 100\<rparr>"
      "env_ex\<lparr>calculateDownloadSpeed_group := 150\<rparr>" collaborators_ex]
  by (simp add: state_ex_def env_ex_def)

subsection \<open>No speed floor configured\<close>

text \<open>
  Claim C10. When the lowest speed limit is 0, \<open>checkLowestDownloadSpeed\<close> raises
  nothing, whatever the clock and the measured speed are, and no step ends with
  \<open>DlAbortEx\<close>.
\<close>

theorem checkLowestDownloadSpeed_no_floor:
  "lowestDownloadSpeedLimit st = 0 \<Longrightarrow>
     checkLowestDownloadSpeed E st = None \<and> (\<forall>m. snd (executeInternal C E st) \<noteq> Thrown (DlAbortEx m))"
  by (simp add: check_zero executeInternal_def Let_def finish_no_abort store_limit split: list.splits)

theorem checkLowestDownloadSpeed_no_floor_witness:
  "lowestDownloadSpeedLimit state_ex = 0
   \<and> checkLowestDownloadSpeed (env_ex\<lparr>currentTime := 60\<rparr>) state_ex = None
   \<and> (\<forall>m. snd (executeInternal collaborators_ex (env_ex\<lparr>currentTime := 60\<rparr>) state_ex) \<noteq> Thrown (DlAbortEx m))"
  using checkLowestDownloadSpeed_no_floor [of state_ex "env_ex\<lparr>currentTime := 60\<rparr>" collaborators_ex]
  by (simp add: state_ex_def)

subsection \<open>The bytes fed to the rolling hash\<close>

text \<open>
  Claim C1. The claim asks that the bytes fed to the rolling hash, at the written length
  before the step, are the bytes persisted in that step, in particular with a content
  decoder. The step evaluated here has a content decoder and piece hash validation: the
  socket delivers the bytes 1, 2; the decoder's output 1, 1, 2, 2 is written at offset
  3500; the hash is fed four bytes at segment offset 500 through the pointer to the
  undecoded buffer: the two bytes read and the two bytes of memory behind them. (With
  neither decoder the two agree: lemma \<open>store_hash_fed_plain\<close>.)
\<close>

theorem executeInternal_hash_fed_with_content_decoder:
  "map hashed (segments (fst (executeInternal collaborators_ex env_ex
       (state_ex\<lparr>contentEncodingDecoder := Some ()\<rparr>)))) = [[(500, [1, 2, 170, 170])]]
   \<and> readDisk (disk (fst (executeInternal collaborators_ex env_ex
       (state_ex\<lparr>contentEncodingDecoder := Some ()\<rparr>)))) 3500 4 = [1, 1, 2, 2]"
  by (simp add: example_defs step_defs readDisk_def writeData_def)

subsection \<open>The written length across steps\<close>




subsection \<open>The payload of the transfer decoder\<close>

text \<open>
  Claim C3, as amended. In a step that reads with a transfer decoder configured, let
  \<open>payload\<close> be what the decoder produces from the bytes read in this step. The step
  takes as many bytes through the payload pointer as the decoder produced, not the 16 KiB
  capacity of the intermediate buffer. Without a content decoder, the disk after the step
  is the disk before it with exactly these bytes written at the segment's write offset,
  and the written length after the step is the one before plus their number. With a
  content decoder, these bytes are what the content decoder is given, the disk after the
  step is the disk before it with the content decoder's output written at the write
  offset, and the written length has advanced by the length of that output. In both cases
  a step that ends in the checksum mismatch error leaves the written length at 0. (The
  values of the bytes are those the memory of the intermediate buffer holds after its
  block has ended: the theorem says how many they are, not that they are the decoder's.)
\<close>

theorem transfer_decoded_length_persisted:
  assumes "\<not> (0 < maxDownloadSpeedLimit st \<and> maxDownloadSpeedLimit st < calculateDownloadSpeed_group E)"
    and "segments st = segment # rest"
    and "transferDecoder st = Some t"
    and "inflate C t (16 * 1024) (readData E (bufSize segment)) = (payload, t')"
  shows "(contentEncodingDecoder st = None \<longrightarrow>
            disk (fst (executeInternal C E st))
              = writeData (disk st) (map (infbuf_when_persisted E) [0 ..< length payload])
                  (getPositionToWrite segment)
          \<and> (\<exists>s'. segments (fst (executeInternal C E st)) = s' # rest
                 \<and> writtenLength s' =
                     (if snd (executeInternal C E st)
                           = Thrown (DlRetryEx (Invalid_checksum_index (index segment)))
                      then 0 else writtenLength segment + length payload)))
      \<and> (\<forall>c out c'. contentEncodingDecoder st = Some c
            \<and> decode C c (map (infbuf_when_persisted E) [0 ..< length payload]) = (out, c') \<longrightarrow>
            disk (fst (executeInternal C E st))
              = writeData (disk st) out (getPositionToWrite segment)
          \<and> (\<exists>s'. segments (fst (executeInternal C E st)) = s' # rest
                 \<and> writtenLength s' =
                     (if snd (executeInternal C E st)
                           = Thrown (DlRetryEx (Invalid_checksum_index (index segment)))
                      then 0 else writtenLength segment + length out)))"
proof -
  let ?st0 = "st\<lparr>checkSocketIsReadable := True\<rparr>"
  let ?buf = "readData E (bufSize segment)"
  let ?st1 = "executeInternal_store C E ?buf ?st0"
  let ?mismatch = "Thrown (DlRetryEx (Invalid_checksum_index (index segment)))"
  have eq: "executeInternal C E st = executeInternal_finish C E (length ?buf) ?st1"
    by (rule step_reads [OF assms(1,2)])
  have d: "disk (fst (executeInternal C E st)) = disk ?st1"
    unfolding eq by (rule disk_finish)
  have seg0: "segments ?st0 = segment # rest" using assms(2) by simp
  obtain s1 where s1: "segments ?st1 = s1 # rest" "index s1 = index segment"
    using store_front(1) [OF seg0, of C E ?buf] by blast
  have fin: "segments (fst (executeInternal C E st)) =
      (if snd (executeInternal C E st) = ?mismatch then clear s1 # rest else s1 # rest)"
    using finish_segments_exact [OF s1(1), of C E "length ?buf"] s1(2) unfolding eq by simp
  have w: "\<And>n. writtenLength s1 = writtenLength segment + n \<Longrightarrow>
      \<exists>s'. segments (fst (executeInternal C E st)) = s' # rest
           \<and> writtenLength s' = (if snd (executeInternal C E st) = ?mismatch then 0
                                  else writtenLength segment + n)"
    using fin by (simp add: clear_def)
  show ?thesis
  proof (intro conjI allI impI)
    assume n: "contentEncodingDecoder st = None"
    have st1: "disk ?st1 = writeData (disk st) (map (infbuf_when_persisted E) [0 ..< length payload])
                  (getPositionToWrite segment)"
      "segments ?st1 = s1 # rest \<longrightarrow> writtenLength s1 = writtenLength segment + length payload"
      using assms(2-4) n
      by (auto simp: executeInternal_store_def Let_def updateWrittenLength_def updateHash_def)
    show "disk (fst (executeInternal C E st))
              = writeData (disk st) (map (infbuf_when_persisted E) [0 ..< length payload])
                  (getPositionToWrite segment)"
      using d st1(1) by simp
    show "\<exists>s'. segments (fst (executeInternal C E st)) = s' # rest
                 \<and> writtenLength s' =
                     (if snd (executeInternal C E st) = ?mismatch
                      then 0 else writtenLength segment + length payload)"
      using w st1(2) s1(1) by blast
  next
    fix c out c'
    assume c: "contentEncodingDecoder st = Some c
            \<and> decode C c (map (infbuf_when_persisted E) [0 ..< length payload]) = (out, c')"
    have st1: "disk ?st1 = writeData (disk st) out (getPositionToWrite segment)"
      "segments ?st1 = s1 # rest \<longrightarrow> writtenLength s1 = writtenLength segment + length out"
      using assms(2-4) c
      by (auto simp: executeInternal_store_def Let_def updateWrittenLength_def updateHash_def)
    show "disk (fst (executeInternal C E st)) = writeData (disk st) out (getPositionToWrite segment)"
      using d st1(1) by simp
    show "\<exists>s'. segments (fst (executeInternal C E st)) = s' # rest
                 \<and> writtenLength s' =
                     (if snd (executeInternal C E st) = ?mismatch
                      then 0 else writtenLength segment + length out)"
      using w st1(2) s1(1) by blast
  qed
qed

text \<open>
  Two bytes read, one byte of payload: without a content decoder one byte is written at
  offset 3500, the next offset keeps what it held, and the written length goes from 500
  to 501; with the content decoder two bytes are written and counted.
\<close>

theorem transfer_decoded_length_persisted_witness:
  "inflate collaborators_ex () (16 * 1024) (readData env_ex (bufSize segment_ex)) = ([2], ())
   \<and> map writtenLength (segments (fst (executeInternal collaborators_ex env_ex
         (state_ex\<lparr>transferDecoder := Some ()\<rparr>)))) = [501]
   \<and> readDisk (disk (fst (executeInternal collaborators_ex env_ex
         (state_ex\<lparr>transferDecoder := Some ()\<rparr>)))) 3500 2 = [9, 0]
   \<and> decode collaborators_ex () [9] = ([9, 9], ())
   \<and> map writtenLength (segments (fst (executeInternal collaborators_ex env_ex
         (state_ex\<lparr>transferDecoder := Some (), contentEncodingDecoder := Some ()\<rparr>)))) = [502]"
  using transfer_decoded_length_persisted
    [of "state_ex\<lparr>transferDecoder := Some ()\<rparr>" env_ex segment_ex "[]" "()"
      collaborators_ex "[2]" "()"]
    transfer_decoded_length_persisted
    [of "state_ex\<lparr>transferDecoder := Some (), contentEncodingDecoder := Some ()\<rparr>" env_ex
      segment_ex "[]" "()" collaborators_ex "[2]" "()"]
  by (simp add: example_defs step_defs readDisk_def writeData_def)

text \<open>
  With both decoders the claim as stated fails: the transfer decoder produces one byte,
  the content decoder turns the one byte it is given into two, and two bytes are written
  at offset 3500 and added to the written length.
\<close>

theorem transfer_decoded_length_counterexample:
  "length (fst (inflate collaborators_ex () (16 * 1024) (readData env_ex (bufSize segment_ex)))) = 1
   \<and> map writtenLength (segments (fst (executeInternal collaborators_ex env_ex
         (state_ex\<lparr>transferDecoder := Some (), contentEncodingDecoder := Some ()\<rparr>)))) = [502]
   \<and> readDisk (disk (fst (executeInternal collaborators_ex env_ex
         (state_ex\<lparr>transferDecoder := Some (), contentEncodingDecoder := Some ()\<rparr>)))) 3500 3 = [9, 9, 0]"
  by (simp add: example_defs step_defs readDisk_def writeData_def)

subsection \<open>The speed floor\<close>

text \<open>
  Claim C7, as amended. While the time since the speed tracker's start is less than the
  grace period, \<open>checkLowestDownloadSpeed\<close> raises nothing, whatever the speed. Once the
  grace period has elapsed, with a positive floor and a measured speed at or below it,
  the check raises \<open>DlAbortEx\<close> with the measured speed, the floor and the host, and the
  step ends as follows. A step that the speed ceiling holds back returns false and raises
  nothing. A step that reads, on a command that owns a segment, throws the retryable
  \<open>EX_GOT_EOF\<close> when the total length is not zero and the read returned no byte;
  otherwise it throws the retryable checksum error with the segment's index when the
  transfer is done, digest support is compiled in, piece hash validation is enabled, the
  expected hash of the segment is not empty and the computed hash differs from it; in
  every other case it throws that \<open>DlAbortEx\<close>.
\<close>

theorem speed_floor_check:
  "(currentTime E - downloadStartTime (peerStat st) < int (startupIdleTime st) \<longrightarrow>
      checkLowestDownloadSpeed E st = None)
   \<and> (int (startupIdleTime st) \<le> currentTime E - downloadStartTime (peerStat st)
      \<and> 0 < lowestDownloadSpeedLimit st
      \<and> calculateDownloadSpeed_peer E \<le> lowestDownloadSpeedLimit st \<longrightarrow>
      checkLowestDownloadSpeed E st =
        Some (DlAbortEx (EX_TOO_SLOW_DOWNLOAD_SPEED (calculateDownloadSpeed_peer E)
                (lowestDownloadSpeedLimit st) (getHost E)))
      \<and> (0 < maxDownloadSpeedLimit st \<and> maxDownloadSpeedLimit st < calculateDownloadSpeed_group E \<longrightarrow>
           snd (executeInternal C E st) = Returned False)
      \<and> (\<forall>segment rest.
           \<not> (0 < maxDownloadSpeedLimit st \<and> maxDownloadSpeedLimit st < calculateDownloadSpeed_group E)
           \<and> segments st = segment # rest \<longrightarrow>
           (let buf = readData E (bufSize segment);
                st1 = executeInternal_store C E buf (st\<lparr>checkSocketIsReadable := True\<rparr>);
                segment1 = hd (segments st1);
                expectedPieceHash = getPieceHash E (index segment);
                actualPieceHash =
                  (if isHashCalculated C segment1 then getHashString C segment1
                   else digest C (disk st1) (position segment) (length_s segment))
            in snd (executeInternal C E st) =
                 (if getTotalLength E \<noteq> 0 \<and> buf = [] then Thrown (DlRetryEx EX_GOT_EOF)
                  else if transferDone C (length buf) segment1 st1
                          \<and> ENABLE_MESSAGE_DIGEST C \<and> pieceHashValidationEnabled st
                          \<and> expectedPieceHash \<noteq> [] \<and> actualPieceHash \<noteq> expectedPieceHash
                  then Thrown (DlRetryEx (Invalid_checksum_index (index segment)))
                  else Thrown (DlAbortEx (EX_TOO_SLOW_DOWNLOAD_SPEED (calculateDownloadSpeed_peer E)
                        (lowestDownloadSpeedLimit st) (getHost E)))))))"
proof (intro conjI impI allI)
  assume "currentTime E - downloadStartTime (peerStat st) < int (startupIdleTime st)"
  then show "checkLowestDownloadSpeed E st = None"
    by (simp add: checkLowestDownloadSpeed_def elapsed_def)
next
  assume a: "int (startupIdleTime st) \<le> currentTime E - downloadStartTime (peerStat st)
      \<and> 0 < lowestDownloadSpeedLimit st
      \<and> calculateDownloadSpeed_peer E \<le> lowestDownloadSpeedLimit st"
  then show "checkLowestDownloadSpeed E st =
        Some (DlAbortEx (EX_TOO_SLOW_DOWNLOAD_SPEED (calculateDownloadSpeed_peer E)
                (lowestDownloadSpeedLimit st) (getHost E)))"
    by (simp add: checkLowestDownloadSpeed_def elapsed_def)
next
  assume "0 < maxDownloadSpeedLimit st \<and> maxDownloadSpeedLimit st < calculateDownloadSpeed_group E"
  then show "snd (executeInternal C E st) = Returned False"
    by (simp add: executeInternal_def)
next
  fix segment rest
  let ?abort = "DlAbortEx (EX_TOO_SLOW_DOWNLOAD_SPEED (calculateDownloadSpeed_peer E)
                (lowestDownloadSpeedLimit st) (getHost E))"
  let ?st0 = "st\<lparr>checkSocketIsReadable := True\<rparr>"
  let ?buf = "readData E (bufSize segment)"
  let ?st1 = "executeInternal_store C E ?buf ?st0"
  assume a: "int (startupIdleTime st) \<le> currentTime E - downloadStartTime (peerStat st)
      \<and> 0 < lowestDownloadSpeedLimit st
      \<and> calculateDownloadSpeed_peer E \<le> lowestDownloadSpeedLimit st"
  assume b: "\<not> (0 < maxDownloadSpeedLimit st \<and> maxDownloadSpeedLimit st < calculateDownloadSpeed_group E)
           \<and> segments st = segment # rest"
  have s: "checkLowestDownloadSpeed E st = Some ?abort"
    using a by (simp add: checkLowestDownloadSpeed_def elapsed_def)
  have eq: "executeInternal C E st = executeInternal_finish C E (length ?buf) ?st1"
    using b by (intro step_reads) simp_all
  have seg0: "segments ?st0 = segment # rest" using b by simp
  obtain s1 where s1: "segments ?st1 = s1 # rest" "index s1 = index segment"
      "position s1 = position segment" "length_s s1 = length_s segment"
    using store_front(1) [OF seg0, of C E ?buf] by blast
  have p: "pieceHashValidationEnabled ?st1 = pieceHashValidationEnabled st"
    using store_front(2) [OF seg0, of C E ?buf] by simp
  have c: "checkLowestDownloadSpeed E ?st1 = Some ?abort"
    unfolding check_store using s check_cong [of ?st0 st E] by simp
  show "let buf = readData E (bufSize segment);
            st1 = executeInternal_store C E buf (st\<lparr>checkSocketIsReadable := True\<rparr>);
            segment1 = hd (segments st1);
            expectedPieceHash = getPieceHash E (index segment);
            actualPieceHash =
              (if isHashCalculated C segment1 then getHashString C segment1
               else digest C (disk st1) (position segment) (length_s segment))
        in snd (executeInternal C E st) =
             (if getTotalLength E \<noteq> 0 \<and> buf = [] then Thrown (DlRetryEx EX_GOT_EOF)
              else if transferDone C (length buf) segment1 st1
                      \<and> ENABLE_MESSAGE_DIGEST C \<and> pieceHashValidationEnabled st
                      \<and> expectedPieceHash \<noteq> [] \<and> actualPieceHash \<noteq> expectedPieceHash
              then Thrown (DlRetryEx (Invalid_checksum_index (index segment)))
              else Thrown (DlAbortEx (EX_TOO_SLOW_DOWNLOAD_SPEED (calculateDownloadSpeed_peer E)
                    (lowestDownloadSpeedLimit st) (getHost E))))"
    unfolding eq Let_def finish_snd_slow [OF s1(1) c, of C "length ?buf"]
    by (simp add: s1 p)
qed

text \<open>
  Grace period 10 s, floor 50. At 5 s a speed of 20 raises nothing. At 10 s a speed of 50
  makes the check raise; the step that is held back returns false, the step that reads
  two bytes aborts, the step that reads nothing throws the end-of-stream error, and the
  step that completes the segment against an expected hash it does not match throws the
  checksum error.
\<close>

theorem speed_floor_check_witness:
  "checkLowestDownloadSpeed (env_ex\<lparr>calculateDownloadSpeed_peer := 20\<rparr>)
      (state_ex\<lparr>lowestDownloadSpeedLimit := 50\<rparr>) = None
   \<and> checkLowestDownloadSpeed (env_ex\<lparr>currentTime := 10, calculateDownloadSpeed_peer := 50\<rparr>)
      (state_ex\<lparr>lowestDownloadSpeedLimit := 50\<rparr>)
       = Some (DlAbortEx (EX_TOO_SLOW_DOWNLOAD_SPEED 50 50 ''example.org''))
   \<and> snd (executeInternal collaborators_ex
            (env_ex\<lparr>currentTime := 10, calculateDownloadSpeed_peer := 50, calculateDownloadSpeed_group := 150\<rparr>)
            (state_ex\<lparr>lowestDownloadSpeedLimit := 50, maxDownloadSpeedLimit := 100\<rparr>))
       = Returned False
   \<and> snd (executeInternal collaborators_ex (env_ex\<lparr>currentTime := 10, calculateDownloadSpeed_peer := 50\<rparr>)
            (state_ex\<lparr>lowestDownloadSpeedLimit := 50\<rparr>))
       = Thrown (DlAbortEx (EX_TOO_SLOW_DOWNLOAD_SPEED 50 50 ''example.org''))
   \<and> snd (executeInternal collaborators_ex
            (env_ex\<lparr>currentTime := 10, calculateDownloadSpeed_peer := 50, incoming := []\<rparr>)
            (state_ex\<lparr>lowestDownloadSpeedLimit := 50\<rparr>))
       = Thrown (DlRetryEx EX_GOT_EOF)
   \<and> snd (executeInternal collaborators_ex
            (env_ex\<lparr>currentTime := 10, calculateDownloadSpeed_peer := 50,
                    getPieceHash := (\<lambda>i. ''abc123'')\<rparr>)
            (state_ex\<lparr>lowestDownloadSpeedLimit := 50,
                      segments := [segment_ex\<lparr>writtenLength := 998\<rparr>]\<rparr>))
       = Thrown (DlRetryEx (Invalid_checksum_index 3))"
  using speed_floor_check
      [of "env_ex\<lparr>calculateDownloadSpeed_peer := 20\<rparr>" "state_ex\<lparr>lowestDownloadSpeedLimit := 50\<rparr>"
        collaborators_ex]
    speed_floor_check
      [of "env_ex\<lparr>currentTime := 10, calculateDownloadSpeed_peer := 50, calculateDownloadSpeed_group := 150\<rparr>"
        "state_ex\<lparr>lowestDownloadSpeedLimit := 50, maxDownloadSpeedLimit := 100\<rparr>" collaborators_ex]
    speed_floor_check
      [of "env_ex\<lparr>currentTime := 10, calculateDownloadSpeed_peer := 50\<rparr>"
        "state_ex\<lparr>lowestDownloadSpeedLimit := 50\<rparr>" collaborators_ex]
  by (simp add: example_defs step_defs)

text \<open>
  The claim as stated fails for a step that the speed ceiling holds back: 60 s after the
  start, with a floor of 50 and a measured speed of 20, but a ceiling of 100 under an
  aggregate speed of 150, the step returns false and raises nothing.
\<close>

theorem speed_floor_throttled_counterexample:
  "int (startupIdleTime (state_ex\<lparr>maxDownloadSpeedLimit := 100, lowestDownloadSpeedLimit := 50\<rparr>))
     \<le> currentTime (env_ex\<lparr>currentTime := 60, calculateDownloadSpeed_group := 150, calculateDownloadSpeed_peer := 20\<rparr>)
       - downloadStartTime (peerStat (state_ex\<lparr>maxDownloadSpeedLimit := 100, lowestDownloadSpeedLimit := 50\<rparr>))
   \<and> 0 < lowestDownloadSpeedLimit (state_ex\<lparr>maxDownloadSpeedLimit := 100, lowestDownloadSpeedLimit := 50\<rparr>)
   \<and> calculateDownloadSpeed_peer (env_ex\<lparr>currentTime := 60, calculateDownloadSpeed_group := 150, calculateDownloadSpeed_peer := 20\<rparr>)
     \<le> lowestDownloadSpeedLimit (state_ex\<lparr>maxDownloadSpeedLimit := 100, lowestDownloadSpeedLimit := 50\<rparr>)
   \<and> snd (executeInternal collaborators_ex
        (env_ex\<lparr>currentTime := 60, calculateDownloadSpeed_group := 150, calculateDownloadSpeed_peer := 20\<rparr>)
        (state_ex\<lparr>maxDownloadSpeedLimit := 100, lowestDownloadSpeedLimit := 50\<rparr>)) = Returned False"
  by (simp add: state_ex_def env_ex_def executeInternal_def)

subsection \<open>The completion test\<close>

text \<open>
  Claim C9, as amended. In a step that reads (the speed ceiling does not hold it back, the
  command owns a segment) and that does not fail with the premature end of stream, the
  transfer of the segment is treated as done, which the completion message in the log of
  this step records, if and only if the transfer decoder, after decoding this step's
  bytes, reports finished, or no transfer decoder is configured and the segment, after
  this step's bookkeeping, is complete, or the read returned no byte.
\<close>

theorem completion_test:
  assumes "\<not> (0 < maxDownloadSpeedLimit st \<and> maxDownloadSpeedLimit st < calculateDownloadSpeed_group E)"
    and "segments st = segment # rest"
    and "\<not> (getTotalLength E \<noteq> 0 \<and> readData E (bufSize segment) = [])"
  shows "MSG_SEGMENT_DOWNLOAD_COMPLETED (cuid st)
           \<in> set (drop (length (logger st)) (logger (fst (executeInternal C E st))))
     \<longleftrightarrow>
       (\<exists>t. transferDecoder (executeInternal_store C E (readData E (bufSize segment))
                (st\<lparr>checkSocketIsReadable := True\<rparr>)) = Some t \<and> td_finished C t)
       \<or> (transferDecoder st = None
          \<and> (\<exists>s. segments (executeInternal_store C E (readData E (bufSize segment))
                (st\<lparr>checkSocketIsReadable := True\<rparr>)) = s # rest \<and> complete s))
       \<or> readData E (bufSize segment) = []"
proof -
  let ?st0 = "st\<lparr>checkSocketIsReadable := True\<rparr>"
  let ?buf = "readData E (bufSize segment)"
  let ?st1 = "executeInternal_store C E ?buf ?st0"
  have seg0: "segments ?st0 = segment # rest" using assms(2) by simp
  obtain s' where s': "segments ?st1 = s' # rest"
    using store_segments [OF seg0] by blast
  have td: "transferDecoder ?st1 = None \<longleftrightarrow> transferDecoder st = None"
    using assms(2) by (simp add: executeInternal_store_def Let_def split: option.splits prod.splits)
  have "MSG_SEGMENT_DOWNLOAD_COMPLETED (cuid st)
           \<in> set (drop (length (logger st)) (logger (fst (executeInternal C E st))))
        \<longleftrightarrow> transferDone C (length ?buf) s' ?st1"
    using logger_finish [OF s', of E "length ?buf" C] assms(3)
    unfolding step_reads [OF assms(1,2)]
    by (simp add: logger_store cuid_store)
  also have "\<dots> \<longleftrightarrow> (\<exists>t. transferDecoder ?st1 = Some t \<and> td_finished C t)
       \<or> (transferDecoder st = None \<and> (\<exists>s. segments ?st1 = s # rest \<and> complete s))
       \<or> ?buf = []"
    using s' td by (auto simp: transferDone_def split: option.splits)
  finally show ?thesis .
qed

text \<open>
  From 998 of 1000 bytes, two bytes complete the segment and the completion is logged;
  from 500 bytes they do not, and nothing is logged.
\<close>

theorem completion_test_witness:
  "segments (state_ex\<lparr>segments := [segment_ex\<lparr>writtenLength := 998\<rparr>]\<rparr>) = segment_ex\<lparr>writtenLength := 998\<rparr> # []
   \<and> readData env_ex (bufSize (segment_ex\<lparr>writtenLength := 998\<rparr>)) = [1, 2]
   \<and> MSG_SEGMENT_DOWNLOAD_COMPLETED 1
        \<in> set (logger (fst (executeInternal collaborators_ex env_ex
                               (state_ex\<lparr>segments := [segment_ex\<lparr>writtenLength := 998\<rparr>]\<rparr>))))
   \<and> map complete (segments (fst (executeInternal collaborators_ex env_ex
                               (state_ex\<lparr>segments := [segment_ex\<lparr>writtenLength := 998\<rparr>]\<rparr>)))) = [True]
   \<and> MSG_SEGMENT_DOWNLOAD_COMPLETED 1
        \<notin> set (logger (fst (executeInternal collaborators_ex env_ex state_ex)))
   \<and> map complete (segments (fst (executeInternal collaborators_ex env_ex state_ex))) = [False]"
  using completion_test [of "state_ex\<lparr>segments := [segment_ex\<lparr>writtenLength := 998\<rparr>]\<rparr>" env_ex
            "segment_ex\<lparr>writtenLength := 998\<rparr>" "[]" collaborators_ex]
    completion_test [of state_ex env_ex segment_ex "[]" collaborators_ex]
  by (simp add: example_defs step_defs)

text \<open>
  The claim as stated fails when the read returns no byte while the request group expects
  1000 bytes: the third alternative of the test holds, but the step throws before the
  test, logs no completion and marks nothing complete.
\<close>

theorem completion_test_EOF_counterexample:
  "readData (env_ex\<lparr>incoming := []\<rparr>) (bufSize segment_ex) = []
   \<and> getTotalLength (env_ex\<lparr>incoming := []\<rparr>) = 1000
   \<and> snd (executeInternal collaborators_ex (env_ex\<lparr>incoming := []\<rparr>) state_ex)
       = Thrown (DlRetryEx EX_GOT_EOF)
   \<and> logger (fst (executeInternal collaborators_ex (env_ex\<lparr>incoming := []\<rparr>) state_ex)) = []
   \<and> completed (segmentMan (fst (executeInternal collaborators_ex (env_ex\<lparr>incoming := []\<rparr>) state_ex))) = []"
  by (simp add: example_defs step_defs)

end
